theory Spec2Isabelle
  imports Main
begin

section \<open>Data model of \<open>PhilippinesDataSource.parse_dataframes\<close>\<close>

text \<open>
  A table cell. pandas columns of the line list hold text or a missing value
  (\<open>NaN\<close>/\<open>None\<close>); numbers appear in the count columns and wherever
  \<open>fillna(0)\<close> has replaced a missing value. The strings of the model are
  ASCII strings, and \<open>lower\<close> below is \<open>str.lower\<close> on them.
\<close>

datatype cell = Null | Str string | Num int

datatype error = AttributeError

fun is_str :: "cell \<Rightarrow> bool" where
  "is_str (Str s) = True"
| "is_str c = False"

text \<open>The grouping columns shared by the case table and the aggregated table.\<close>

record keys_row =
  match_string_province :: cell
  match_string_region :: cell
  age :: cell
  sex :: cell

text \<open>
  One row of \<open>cases\<close> after \<open>table_rename\<close> (lines 30-45). The columns
  \<open>_date_estimate\<close>, \<open>_hospitalized\<close> and \<open>_prognosis\<close> are written without the
  leading underscore.
\<close>

record case_row = keys_row +
  date_new_deceased :: cell
  date_new_confirmed :: cell
  date_new_recovered :: cell
  date_estimate :: cell
  hospitalized :: cell
  prognosis :: cell

text \<open>The case table once line 60 has added the column \<open>date_new_hospitalized\<close>.\<close>

record hosp_row = case_row +
  date_new_hospitalized :: cell

subsection \<open>Lines 47-57: estimating missing recovery and death dates\<close>

definition isna :: "cell \<Rightarrow> bool" where
  "isna c = (c = Null)"

definition impute_recovered :: "case_row \<Rightarrow> case_row" where
  "impute_recovered r =
     (if isna (date_new_recovered r) \<and> prognosis r = Str ''Recovered''
      then r\<lparr>date_new_recovered := date_estimate r\<rparr> else r)"

definition impute_deceased :: "case_row \<Rightarrow> case_row" where
  "impute_deceased r =
     (if isna (date_new_deceased r) \<and> prognosis r = Str ''Died''
      then r\<lparr>date_new_deceased := date_estimate r\<rparr> else r)"

definition impute_dates :: "case_row \<Rightarrow> case_row" where
  "impute_dates r = impute_deceased (impute_recovered r)"

subsection \<open>Lines 59-64: hospitalization date from the admission flag\<close>

definition lower_char :: "char \<Rightarrow> char" where
  "lower_char c =
     (if (65::nat) \<le> of_char c \<and> of_char c \<le> (90::nat)
      then char_of (of_char c + (32::nat)) else c)"

definition lower :: "string \<Rightarrow> string" where
  "lower s = map lower_char s"

text \<open>
  \<open>Series.str\<close> checks the column before it reads a cell, and raises
  \<open>AttributeError\<close> ("Can only use .str accessor with string values") for a
  column that holds no strings. The case table is as pandas reads it from a
  file, where a missing cell is the float \<open>NaN\<close>: a column that has rows and not
  one string among them is a numeric column, and the accessor refuses it. A
  column without rows is an object column, which it accepts.
\<close>

definition str_accessor :: "cell list \<Rightarrow> error + cell list" where
  "str_accessor col =
     (if col = [] \<or> list_ex is_str col then Inr col else Inl AttributeError)"

text \<open>
  On a column that the accessor accepts, \<open>str.lower()\<close> gives \<open>NaN\<close> for a cell
  that is not a string.
\<close>

definition str_lower :: "cell \<Rightarrow> cell" where
  "str_lower c = (case c of Str s \<Rightarrow> Str (lower s) | _ \<Rightarrow> Null)"

definition hospitalized_mask :: "case_row \<Rightarrow> bool" where
  "hospitalized_mask r = (str_lower (hospitalized r) = Str ''yes'')"

definition infer_hospitalized :: "case_row \<Rightarrow> hosp_row" where
  "infer_hospitalized r =
     case_row.extend r
       \<lparr>date_new_hospitalized =
          (if hospitalized_mask r then date_new_confirmed r else Null)\<rparr>"

text \<open>Lines 60-64 on the whole table: the accessor first, then row by row.\<close>

definition hospitalized_dates :: "case_row list \<Rightarrow> error + hosp_row list" where
  "hospitalized_dates cases =
     (case str_accessor (map hospitalized cases) of
        Inl e \<Rightarrow> Inl e
      | Inr col \<Rightarrow> Inr (map infer_hospitalized cases))"

subsection \<open>Lines 66-70: age bands and lower-case sex labels\<close>

text \<open>
  \<open>age_group\<close> is imported from \<open>lib.cast\<close>; it is a parameter of the model.
  \<open>x.lower()\<close> exists only on strings: on a missing value (a float \<open>NaN\<close>) or a
  number Python raises \<open>AttributeError\<close>.
\<close>

definition stratify_age :: "(cell \<Rightarrow> cell) \<Rightarrow> hosp_row \<Rightarrow> hosp_row" where
  "stratify_age age_group r = r\<lparr>age := age_group (age r)\<rparr>"

definition lower_sex :: "hosp_row \<Rightarrow> error + hosp_row" where
  "lower_sex r =
     (case sex r of Str s \<Rightarrow> Inr (r\<lparr>sex := Str (lower s)\<rparr>) | _ \<Rightarrow> Inl AttributeError)"

text \<open>\<open>Series.apply\<close> with a function that may raise: the first exception aborts.\<close>

fun apply_rows :: "('a \<Rightarrow> error + 'b) \<Rightarrow> 'a list \<Rightarrow> error + 'b list" where
  "apply_rows f [] = Inr []"
| "apply_rows f (x # xs) =
     (case f x of
        Inl e \<Rightarrow> Inl e
      | Inr y \<Rightarrow> (case apply_rows f xs of Inl e \<Rightarrow> Inl e | Inr ys \<Rightarrow> Inr (y # ys)))"

text \<open>What lines 47-67 make of one row when line 61 does not raise.\<close>

definition prepare_case :: "(cell \<Rightarrow> cell) \<Rightarrow> case_row \<Rightarrow> hosp_row" where
  "prepare_case age_group r = stratify_age age_group (infer_hospitalized (impute_dates r))"

section \<open>Aggregated table and its post-processing\<close>

text \<open>
  One row of the table returned by \<open>convert_cases_to_time_series\<close>: the index
  columns, \<open>date\<close>, \<open>age\<close>, \<open>sex\<close> and one count column per event.
\<close>

record agg_row = keys_row +
  date :: cell
  new_confirmed :: cell
  new_deceased :: cell
  new_recovered :: cell
  new_hospitalized :: cell

subsection \<open>Lines 80-83: ISO dates\<close>

text \<open>
  A Python \<open>datetime\<close>. The library only builds values with
  \<open>1 \<le> year \<le> 9999\<close>, a month of the year and a day of that month.
\<close>

record datetime =
  year :: nat
  month :: nat
  day :: nat
  hour :: nat
  minute :: nat
  second :: nat

definition is_leap :: "nat \<Rightarrow> bool" where
  "is_leap y = (y mod 4 = 0 \<and> (y mod 100 \<noteq> 0 \<or> y mod 400 = 0))"

definition days_in_month :: "nat \<Rightarrow> nat \<Rightarrow> nat" where
  "days_in_month y m =
     (if m = 2 then (if is_leap y then 29 else 28)
      else if m = 4 \<or> m = 6 \<or> m = 9 \<or> m = 11 then 30 else 31)"

definition valid_datetime :: "datetime \<Rightarrow> bool" where
  "valid_datetime d =
     (1 \<le> year d \<and> year d \<le> 9999 \<and> 1 \<le> month d \<and> month d \<le> 12 \<and>
      1 \<le> day d \<and> day d \<le> days_in_month (year d) (month d) \<and>
      hour d < 24 \<and> minute d < 60 \<and> second d < 60)"

definition digit_char :: "nat \<Rightarrow> char" where
  "digit_char n = char_of (48 + n mod 10)"

text \<open>Decimal digits of a number, as \<open>%d\<close> prints them.\<close>

function dec :: "nat \<Rightarrow> string" where
  "dec n = (if n < 10 then [digit_char n] else dec (n div 10) @ [digit_char n])"
  by pat_completeness auto
termination
  by (relation "measure (\<lambda>n. n)") auto

declare dec.simps [simp del]

text \<open>\<open>%0wd\<close>: zeros on the left up to width \<open>w\<close>, never truncating.\<close>

definition zero_pad :: "nat \<Rightarrow> nat \<Rightarrow> string" where
  "zero_pad w n = replicate (w - length (dec n)) (CHR ''0'') @ dec n"

text \<open>\<open>x.date().isoformat()\<close>: the time of day is dropped, then \<open>%04d-%02d-%02d\<close>.\<close>

definition isoformat :: "datetime \<Rightarrow> string" where
  "isoformat d = zero_pad 4 (year d) @ ''-'' @ zero_pad 2 (month d) @ ''-'' @ zero_pad 2 (day d)"

text \<open>
  \<open>safe_datetime_parse\<close> is imported from \<open>lib.cast\<close>; it is a parameter of the
  model, returning \<open>None\<close> where it cannot read a date. Lines 81-83 parse the
  column, keep the rows with a date and print it.
\<close>

definition normalize_dates :: "(cell \<Rightarrow> datetime option) \<Rightarrow> agg_row list \<Rightarrow> agg_row list" where
  "normalize_dates safe_datetime_parse data =
     List.map_filter
       (\<lambda>r. case safe_datetime_parse (date r) of
               None \<Rightarrow> None
             | Some d \<Rightarrow> Some (r\<lparr>date := Str (isoformat d)\<rparr>))
       data"

subsection \<open>Line 84: \<open>data.fillna(0)\<close>\<close>

definition fill0 :: "cell \<Rightarrow> cell" where
  "fill0 c = (if isna c then Num 0 else c)"

text \<open>\<open>fillna\<close> without a \<open>subset\<close> goes over every column of the table.\<close>

definition fillna0 :: "agg_row \<Rightarrow> agg_row" where
  "fillna0 r =
     \<lparr>match_string_province = fill0 (match_string_province r),
      match_string_region = fill0 (match_string_region r),
      age = fill0 (age r),
      sex = fill0 (sex r),
      date = fill0 (date r),
      new_confirmed = fill0 (new_confirmed r),
      new_deceased = fill0 (new_deceased r),
      new_recovered = fill0 (new_recovered r),
      new_hospitalized = fill0 (new_hospitalized r)\<rparr>"

subsection \<open>Lines 86-97: one copy per geographic resolution\<close>

text \<open>
  \<open>x.split(": ")\<close>, scanning from the left; the first argument collects the
  current piece in reverse.
\<close>

fun split_colon :: "string \<Rightarrow> string \<Rightarrow> string list" where
  "split_colon acc [] = [rev acc]"
| "split_colon acc [c] = [rev (c # acc)]"
| "split_colon acc (c # d # cs) =
     (if c = CHR '':'' \<and> d = CHR '' '' then rev acc # split_colon [] cs
      else split_colon (c # acc) (d # cs))"

text \<open>\<open>lambda x: x.split(": ")[-1]\<close>; only a string has \<open>split\<close>.\<close>

definition last_piece :: "cell \<Rightarrow> error + cell" where
  "last_piece x =
     (case x of Str s \<Rightarrow> Inr (Str (last (split_colon [] s))) | _ \<Rightarrow> Inl AttributeError)"

text \<open>
  A row of \<open>l2\<close> or \<open>l3\<close> as it stands in \<open>concat([l2, l3])\<close>. \<open>l2\<close> has no column
  \<open>match_string_region\<close> and \<open>l3\<close> no column \<open>match_string_province\<close> (each was
  renamed to \<open>match_string\<close>); \<open>concat\<close> takes the union of the columns and puts
  \<open>NaN\<close> where a frame lacks one.
\<close>

record lvl_row = agg_row +
  match_string :: cell
  subregion2_code :: cell

record out_row = lvl_row +
  country_code :: cell

definition l3_row :: "agg_row \<Rightarrow> lvl_row" where
  "l3_row r =
     agg_row.extend (r\<lparr>match_string_province := Null\<rparr>)
       \<lparr>match_string = match_string_province r, subregion2_code = Str []\<rparr>"

definition l2_row :: "agg_row \<Rightarrow> error + lvl_row" where
  "l2_row r =
     (case last_piece (match_string_region r) of
        Inl e \<Rightarrow> Inl e
      | Inr m \<Rightarrow>
          Inr (agg_row.extend (r\<lparr>match_string_region := Null\<rparr>)
                 \<lparr>match_string = m, subregion2_code = Null\<rparr>))"

definition keep_row :: "lvl_row \<Rightarrow> bool" where
  "keep_row r = (\<not> isna (match_string r) \<and> match_string r \<noteq> Str ''Repatriate'')"

definition add_country :: "lvl_row \<Rightarrow> out_row" where
  "add_country r = lvl_row.extend r \<lparr>country_code = Str ''PH''\<rparr>"

definition expand_resolutions :: "agg_row list \<Rightarrow> error + out_row list" where
  "expand_resolutions data =
     (case apply_rows l2_row data of
        Inl e \<Rightarrow> Inl e
      | Inr l2 \<Rightarrow> Inr (map add_country (filter keep_row (l2 @ map l3_row data))))"

section \<open>The aggregation helper\<close>

text \<open>
  The four event columns of the case table, \<open>date_new_confirmed\<close>,
  \<open>date_new_deceased\<close>, \<open>date_new_recovered\<close> and \<open>date_new_hospitalized\<close>.
\<close>

datatype event = Confirmed | Deceased | Recovered | Hospitalized

fun event_date :: "event \<Rightarrow> hosp_row \<Rightarrow> cell" where
  "event_date Confirmed r = date_new_confirmed r"
| "event_date Deceased r = date_new_deceased r"
| "event_date Recovered r = date_new_recovered r"
| "event_date Hospitalized r = date_new_hospitalized r"

text \<open>
  Modelled from the spec: \<open>convert_cases_to_time_series\<close> of \<open>lib.case_line\<close> is
  called at line 76 and is not among the sources. The definitions of this
  section follow section 4.4 of the specification. A group is identified by the
  event date and the grouping columns: the two index columns, age band and sex.
\<close>

type_synonym group_key = "cell \<times> cell \<times> cell \<times> cell \<times> cell"

definition group_key :: "event \<Rightarrow> hosp_row \<Rightarrow> group_key" where
  "group_key e r =
     (event_date e r, match_string_province r, match_string_region r, age r, sex r)"

text \<open>
  Modelled from the spec: "a case missing a required grouping key is excluded
  entirely from the aggregation for that event". The required key is the
  region ("province may be absent/blank; region always expected"): a case with
  only its region known stays in the aggregation, and so does a case whose age
  band is unknown.
\<close>

definition has_required_key :: "hosp_row \<Rightarrow> bool" where
  "has_required_key r = (\<not> isna (match_string_region r))"

text \<open>
  Modelled from the spec: steps 1 and 2, the rows of one event with a non-null
  date, each under its group.
\<close>

definition event_keys :: "event \<Rightarrow> hosp_row list \<Rightarrow> group_key list" where
  "event_keys e cases =
     map (group_key e)
       (filter (\<lambda>r. \<not> isna (event_date e r) \<and> has_required_key r) cases)"

text \<open>
  Modelled from the spec: the count of a group is the number of its rows; two
  rows that agree on every key are both counted.
\<close>

definition new_count :: "event \<Rightarrow> hosp_row list \<Rightarrow> group_key \<Rightarrow> cell" where
  "new_count e cases k = Num (int (count_list (event_keys e cases) k))"

text \<open>
  Modelled from the spec: step 4, one row per group with the four counts, zero
  for an event that has no row in the group.
\<close>

definition pivot_row :: "hosp_row list \<Rightarrow> group_key \<Rightarrow> agg_row" where
  "pivot_row cases k =
     (case k of (d, p, g, a, s) \<Rightarrow>
        \<lparr>match_string_province = p, match_string_region = g, age = a, sex = s,
         date = d,
         new_confirmed = new_count Confirmed cases k,
         new_deceased = new_count Deceased cases k,
         new_recovered = new_count Recovered cases k,
         new_hospitalized = new_count Hospitalized cases k\<rparr>)"

text \<open>
  Modelled from the spec: the union of the four series, one row for each group
  that occurs in any of them. The order of the rows is not part of the
  contract.
\<close>

definition convert_cases_to_time_series :: "hosp_row list \<Rightarrow> agg_row list" where
  "convert_cases_to_time_series cases =
     map (pivot_row cases)
       (remdups (event_keys Confirmed cases @ event_keys Deceased cases @
                 event_keys Recovered cases @ event_keys Hospitalized cases))"

section \<open>\<open>parse_dataframes\<close>\<close>

text \<open>
  Lines 47-97 on the renamed case table. The three imported helpers are
  parameters. Line 73 drops the three columns whose name starts with an
  underscore; nothing after it reads them.
\<close>

definition parse_dataframes ::
  "(hosp_row list \<Rightarrow> agg_row list) \<Rightarrow> (cell \<Rightarrow> cell) \<Rightarrow> (cell \<Rightarrow> datetime option) \<Rightarrow>
   case_row list \<Rightarrow> error + out_row list" where
  "parse_dataframes convert age_group safe_datetime_parse cases =
     (case hospitalized_dates (map impute_dates cases) of
        Inl e \<Rightarrow> Inl e
      | Inr hs \<Rightarrow>
          (case apply_rows lower_sex (map (stratify_age age_group) hs) of
             Inl e \<Rightarrow> Inl e
           | Inr cs \<Rightarrow>
               expand_resolutions
                 (map fillna0 (normalize_dates safe_datetime_parse (convert cs)))))"

section \<open>Vocabulary of the properties\<close>


fun event_count :: "event \<Rightarrow> 'a agg_row_scheme \<Rightarrow> cell" where
  "event_count Confirmed r = new_confirmed r"
| "event_count Deceased r = new_deceased r"
| "event_count Recovered r = new_recovered r"
| "event_count Hospitalized r = new_hospitalized r"

definition region_level :: "out_row \<Rightarrow> bool" where
  "region_level r = (subregion2_code r = Null)"

definition province_level :: "out_row \<Rightarrow> bool" where
  "province_level r = (subregion2_code r = Str [])"


definition is_digit :: "char \<Rightarrow> bool" where
  "is_digit c = ((48::nat) \<le> of_char c \<and> of_char c \<le> (57::nat))"

text \<open>The shape \<open>YYYY-MM-DD\<close>: ten characters, digits around two hyphens.\<close>

fun iso_date :: "string \<Rightarrow> bool" where
  "iso_date [y1, y2, y3, y4, h1, m1, m2, h2, d1, d2] =
     (is_digit y1 \<and> is_digit y2 \<and> is_digit y3 \<and> is_digit y4 \<and> h1 = CHR ''-'' \<and>
      is_digit m1 \<and> is_digit m2 \<and> h2 = CHR ''-'' \<and> is_digit d1 \<and> is_digit d2)"
| "iso_date s = False"

text \<open>Reading an ISO date back: the numbers that its three digit groups write.\<close>

definition digit_value :: "char \<Rightarrow> nat" where
  "digit_value c = of_char c - 48"

definition read_nat :: "string \<Rightarrow> nat" where
  "read_nat s = foldl (\<lambda>a c. 10 * a + digit_value c) 0 s"

fun iso_fields :: "string \<Rightarrow> (nat \<times> nat \<times> nat) option" where
  "iso_fields [y1, y2, y3, y4, h1, m1, m2, h2, d1, d2] =
     (if iso_date [y1, y2, y3, y4, h1, m1, m2, h2, d1, d2]
      then Some (read_nat [y1, y2, y3, y4], read_nat [m1, m2], read_nat [d1, d2])
      else None)"
| "iso_fields s = None"

definition date_fields :: "cell \<Rightarrow> (nat \<times> nat \<times> nat) option" where
  "date_fields c = (case c of Str s \<Rightarrow> iso_fields s | _ \<Rightarrow> None)"

text \<open>The calendar date of a datetime, \<open>x.date()\<close>: year, month and day.\<close>

definition calendar_date :: "datetime \<Rightarrow> nat \<times> nat \<times> nat" where
  "calendar_date d = (year d, month d, day d)"


text \<open>
  The key of the region copy of a row whose region is a string; any other cell is
  left as it is.
\<close>

definition region_key :: "'a keys_row_scheme \<Rightarrow> cell" where
  "region_key r =
     (case match_string_region r of Str s \<Rightarrow> Str (last (split_colon [] s)) | c \<Rightarrow> c)"

text \<open>The columns that both copies carry over from the aggregated row.\<close>

definition payload :: "'a agg_row_scheme \<Rightarrow> cell \<times> cell \<times> cell \<times> cell \<times> cell \<times> cell \<times> cell" where
  "payload r =
     (date r, age r, sex r, new_confirmed r, new_deceased r, new_recovered r,
      new_hospitalized r)"

fun contains_sep :: "string \<Rightarrow> bool" where
  "contains_sep [] = False"
| "contains_sep [c] = False"
| "contains_sep (c # d # cs) = ((c = CHR '':'' \<and> d = CHR '' '') \<or> contains_sep (d # cs))"

text \<open>\<open>t\<close> is what follows the last \<open>": "\<close> of \<open>s\<close>, or all of \<open>s\<close> when there is none.\<close>

definition after_last_sep :: "string \<Rightarrow> string \<Rightarrow> bool" where
  "after_last_sep s t = (\<not> contains_sep t \<and> (s = t \<or> (\<exists>p. s = p @ '': '' @ t)))"

text \<open>
  The region copy of a row whose region is a string: what \<open>l2_row\<close> returns when
  line 89 does not raise.
\<close>

definition l2_copy :: "agg_row \<Rightarrow> lvl_row" where
  "l2_copy r =
     agg_row.extend (r\<lparr>match_string_region := Null\<rparr>)
       \<lparr>match_string = region_key r, subregion2_code = Null\<rparr>"

subsection \<open>Example inputs\<close>

text \<open>
  The scenario of the specification: one case from Manila, confirmed on
  2020-04-01, admitted, recovered, reported on 2020-04-10. The two helpers below
  are instances of the imported functions that suffice for it.
\<close>

definition example_parse :: "cell \<Rightarrow> datetime option" where
  "example_parse c =
     (if c = Str ''2020-04-01''
      then Some \<lparr>year = 2020, month = 4, day = 1, hour = 0, minute = 0, second = 0\<rparr>
      else if c = Str ''2020-04-10''
      then Some \<lparr>year = 2020, month = 4, day = 10, hour = 0, minute = 0, second = 0\<rparr>
      else None)"

definition example_age_group :: "cell \<Rightarrow> cell" where
  "example_age_group c =
     (case c of Num n \<Rightarrow> (if 40 \<le> n \<and> n < 50 then Str ''40-49'' else Null) | _ \<Rightarrow> Null)"

definition scenario_case :: case_row where
  "scenario_case =
     \<lparr>match_string_province = Str ''Manila'',
      match_string_region = Str ''NCR: National Capital Region'',
      age = Num 45, sex = Str ''Female'',
      date_new_deceased = Null, date_new_confirmed = Str ''2020-04-01'',
      date_new_recovered = Null, date_estimate = Str ''2020-04-10'',
      hospitalized = Str ''yes'', prognosis = Str ''Recovered''\<rparr>"

text \<open>An aggregated row for 2020-04-01 with the given province and region.\<close>

definition example_row :: "cell \<Rightarrow> cell \<Rightarrow> agg_row" where
  "example_row p g =
     \<lparr>match_string_province = p, match_string_region = g,
      age = Str ''40-49'', sex = Str ''female'', date = Str ''2020-04-01'',
      new_confirmed = Num 1, new_deceased = Num 0, new_recovered = Num 0,
      new_hospitalized = Num 1\<rparr>"

definition example_data :: "agg_row list" where
  "example_data =
     [example_row (Str ''Manila'') (Str ''NCR: National Capital Region''),
      example_row (Str ''Cebu'') (Str ''Repatriate''),
      example_row Null (Str ''Region VII: Central Visayas'')]"

text \<open>
  \<open>example_data\<close> as line 84 leaves it: the missing province of the third row has
  become 0.
\<close>

definition example_filled :: "agg_row list" where
  "example_filled = map fillna0 example_data"


section \<open>Date imputation and hospitalization inference\<close>

lemma lower_char_y: "lower_char c = CHR ''y'' \<longleftrightarrow> c = CHR ''y'' \<or> c = CHR ''Y''"
  by (cases c) (auto simp: lower_char_def char_of_eq_iff)

lemma lower_char_e: "lower_char c = CHR ''e'' \<longleftrightarrow> c = CHR ''e'' \<or> c = CHR ''E''"
  by (cases c) (auto simp: lower_char_def char_of_eq_iff)

lemma lower_char_s: "lower_char c = CHR ''s'' \<longleftrightarrow> c = CHR ''s'' \<or> c = CHR ''S''"
  by (cases c) (auto simp: lower_char_def char_of_eq_iff)

lemma lower_yes:
  "lower s = ''yes'' \<longleftrightarrow>
     s \<in> {''yes'', ''yeS'', ''yEs'', ''yES'', ''Yes'', ''YeS'', ''YEs'', ''YES''}"
proof -
  have "lower s = ''yes'' \<longleftrightarrow>
      (\<exists>a b c. s = [a, b, c] \<and> lower_char a = CHR ''y'' \<and> lower_char b = CHR ''e'' \<and>
                lower_char c = CHR ''s'')"
    by (auto simp: lower_def map_eq_Cons_conv)
  then show ?thesis
    unfolding lower_char_y lower_char_e lower_char_s by auto
qed

text \<open>
  C5. Imputation fills \<open>date_new_recovered\<close> with the report-date estimate exactly
  when it is missing and the outcome is "Recovered", and \<open>date_new_deceased\<close>
  exactly when it is missing and the outcome is "Died"; a date that is present
  stays as it is, and every other column of the row is unchanged.
\<close>

theorem impute_dates_contract:
  "date_new_recovered (impute_dates r) =
     (if date_new_recovered r = Null \<and> prognosis r = Str ''Recovered''
      then date_estimate r else date_new_recovered r) \<and>
   date_new_deceased (impute_dates r) =
     (if date_new_deceased r = Null \<and> prognosis r = Str ''Died''
      then date_estimate r else date_new_deceased r) \<and>
   match_string_province (impute_dates r) = match_string_province r \<and>
   match_string_region (impute_dates r) = match_string_region r \<and>
   age (impute_dates r) = age r \<and>
   sex (impute_dates r) = sex r \<and>
   date_new_confirmed (impute_dates r) = date_new_confirmed r \<and>
   date_estimate (impute_dates r) = date_estimate r \<and>
   hospitalized (impute_dates r) = hospitalized r \<and>
   prognosis (impute_dates r) = prognosis r"
  by (simp add: impute_dates_def impute_recovered_def impute_deceased_def isna_def)

text \<open>
  C6. Imputation is idempotent: a second application to an imputed row, and to
  an imputed table, changes nothing.
\<close>

theorem impute_dates_idempotent:
  "impute_dates (impute_dates r) = impute_dates r \<and>
   map impute_dates (map impute_dates cases) = map impute_dates cases"
  by (simp add: impute_dates_def impute_recovered_def impute_deceased_def isna_def)

text \<open>
  Row by row, on a column that the accessor accepts: \<open>date_new_hospitalized\<close> is
  the confirmation date exactly when the admission flag is a string that reads
  "yes" in some mix of upper and lower case, and null for any other cell.
\<close>

lemma infer_hospitalized_row:
  "date_new_hospitalized (infer_hospitalized r) =
     (if \<exists>s. hospitalized r = Str s \<and>
              s \<in> {''yes'', ''yeS'', ''yEs'', ''yES'', ''Yes'', ''YeS'', ''YEs'', ''YES''}
      then date_new_confirmed r else Null)"
proof (cases "hospitalized r")
  case (Str s)
  then have "hospitalized_mask r \<longleftrightarrow> lower s = ''yes''"
    by (simp add: hospitalized_mask_def str_lower_def)
  with Str show ?thesis
    unfolding lower_yes by (simp add: infer_hospitalized_def case_row.extend_def)
qed (simp_all add: infer_hospitalized_def hospitalized_mask_def str_lower_def case_row.extend_def)

section \<open>Helper lemmas on the post-processing steps\<close>

lemma apply_rows_Inr:
  "(\<And>x. x \<in> set xs \<Longrightarrow> f x = Inr (g x)) \<Longrightarrow> apply_rows f xs = Inr (map g xs)"
  by (induction xs) auto

lemma apply_rows_Inr_D:
  "apply_rows f xs = Inr ys \<Longrightarrow> x \<in> set xs \<Longrightarrow> \<exists>y. f x = Inr y"
  by (induction xs arbitrary: ys) (auto split: sum.splits)

lemma l2_row_str: "is_str (match_string_region r) \<Longrightarrow> l2_row r = Inr (l2_copy r)"
  by (cases "match_string_region r") (simp_all add: l2_row_def last_piece_def l2_copy_def region_key_def)

lemma l2_row_Inr_str: "l2_row r = Inr y \<Longrightarrow> is_str (match_string_region r)"
  by (cases "match_string_region r") (simp_all add: l2_row_def last_piece_def)

lemma expand_Inr_iff:
  "expand_resolutions data = Inr out \<longleftrightarrow>
     (\<forall>r\<in>set data. is_str (match_string_region r)) \<and>
     out = map add_country (filter keep_row (map l2_copy data)) @
           map add_country (filter keep_row (map l3_row data))"
proof (cases "\<forall>r\<in>set data. is_str (match_string_region r)")
  case True
  then have "apply_rows l2_row data = Inr (map l2_copy data)"
    by (intro apply_rows_Inr) (simp add: l2_row_str)
  with True show ?thesis by (auto simp: expand_resolutions_def)
next
  case False
  then obtain r where r: "r \<in> set data" "\<not> is_str (match_string_region r)" by blast
  have "apply_rows l2_row data \<noteq> Inr ys" for ys
    using apply_rows_Inr_D[of l2_row data ys r] r l2_row_Inr_str by blast
  with False show ?thesis by (auto simp: expand_resolutions_def split: sum.splits)
qed

lemma split_colon_nonempty [simp]: "split_colon acc s \<noteq> []"
  by (induction acc s rule: split_colon.induct) auto

lemma split_colon_last:
  "(last (split_colon acc s) = rev acc @ s \<and> \<not> contains_sep s) \<or>
   (\<exists>p. s = p @ '': '' @ last (split_colon acc s) \<and> \<not> contains_sep (last (split_colon acc s)))"
proof (induction acc s rule: split_colon.induct)
  case (3 acc c d cs)
  show ?case
  proof (cases "c = CHR '':'' \<and> d = CHR '' ''")
    case True
    let ?t = "last (split_colon [] cs)"
    from 3(1)[OF True] consider "?t = cs" "\<not> contains_sep cs"
      | p where "cs = p @ '': '' @ ?t" "\<not> contains_sep ?t"
      by auto
    then have "\<exists>q. c # d # cs = q @ '': '' @ ?t \<and> \<not> contains_sep ?t"
    proof cases
      case 1
      with True have "c # d # cs = [] @ '': '' @ ?t" by simp
      with 1 show ?thesis by metis
    next
      case 2
      with True have "c # d # cs = ('': '' @ p) @ '': '' @ ?t" by simp
      with 2 show ?thesis by blast
    qed
    with True show ?thesis by simp
  next
    case False
    let ?t = "last (split_colon (c # acc) (d # cs))"
    from 3(2)[OF False] consider "?t = rev (c # acc) @ d # cs" "\<not> contains_sep (d # cs)"
      | p where "d # cs = p @ '': '' @ ?t" "\<not> contains_sep ?t"
      by auto
    then show ?thesis
    proof cases
      case 1
      with False show ?thesis by auto
    next
      case 2
      then have "c # d # cs = (c # p) @ '': '' @ ?t" by simp
      with 2 False show ?thesis by (metis split_colon.simps(3))
    qed
  qed
qed simp_all

lemma after_last_sep_split: "after_last_sep s (last (split_colon [] s))"
  using split_colon_last[of "[]" s] unfolding after_last_sep_def by auto

lemma is_digit_digit_char [simp]: "is_digit (digit_char n)"
proof -
  have "n mod 10 < 10" by simp
  then have "48 + n mod 10 < 256" by linarith
  then show ?thesis by (simp add: is_digit_def digit_char_def)
qed

lemma dec_digits: "c \<in> set (dec n) \<Longrightarrow> is_digit c"
  by (induction n rule: dec.induct) (subst (asm) dec.simps, auto split: if_splits)

lemma length_dec: "n < 10 ^ k \<Longrightarrow> 0 < k \<Longrightarrow> length (dec n) \<le> k"
proof (induction n arbitrary: k rule: dec.induct)
  case (1 n)
  show ?case
  proof (cases "n < 10")
    case True
    with 1(3) show ?thesis by (subst dec.simps) simp
  next
    case False
    from 1(3) obtain j where kj: "k = Suc j" by (cases k) auto
    have "0 < j"
    proof (rule ccontr)
      assume "\<not> 0 < j"
      with kj 1(2) have "n < 10" by simp
      with False show False by simp
    qed
    note j = kj this
    with 1(2) have "n div 10 < 10 ^ j" by (simp add: less_mult_imp_div_less mult.commute)
    with 1(1)[OF False] j have "length (dec (n div 10)) \<le> j" by simp
    with False j show ?thesis by (subst dec.simps) simp
  qed
qed

lemma zero_pad_shape:
  assumes "n < 10 ^ w" "0 < w"
  shows "length (zero_pad w n) = w" "\<forall>c\<in>set (zero_pad w n). is_digit c"
proof -
  have "length (dec n) \<le> w" using assms by (rule length_dec)
  then show "length (zero_pad w n) = w" by (simp add: zero_pad_def)
  have "is_digit (CHR ''0'')" by (simp add: is_digit_def)
  then show "\<forall>c\<in>set (zero_pad w n). is_digit c"
    by (auto simp: zero_pad_def dec_digits)
qed

lemma iso_date_isoformat:
  assumes "valid_datetime d"
  shows "iso_date (isoformat d)"
proof -
  have y: "year d < 10 ^ 4" and m: "month d < 10 ^ 2" and dd: "day d < 10 ^ 2"
    using assms by (auto simp: valid_datetime_def days_in_month_def split: if_splits)
  obtain y1 y2 y3 y4 where ys: "zero_pad 4 (year d) = [y1, y2, y3, y4]"
    using zero_pad_shape(1)[OF y]
    by (auto simp: length_Suc_conv numeral_eq_Suc)
  obtain m1 m2 where ms: "zero_pad 2 (month d) = [m1, m2]"
    using zero_pad_shape(1)[OF m] by (auto simp: length_Suc_conv numeral_eq_Suc)
  obtain d1 d2 where ds: "zero_pad 2 (day d) = [d1, d2]"
    using zero_pad_shape(1)[OF dd] by (auto simp: length_Suc_conv numeral_eq_Suc)
  from zero_pad_shape(2)[OF y] zero_pad_shape(2)[OF m] zero_pad_shape(2)[OF dd]
  show ?thesis unfolding isoformat_def ys ms ds by simp
qed

lemma digit_value_digit_char [simp]: "digit_value (digit_char n) = n mod 10"
proof -
  have "n mod 10 < 10" by simp
  then have "48 + n mod 10 < 256" by linarith
  then show ?thesis by (simp add: digit_value_def digit_char_def)
qed

lemma read_nat_snoc [simp]: "read_nat (xs @ [c]) = 10 * read_nat xs + digit_value c"
  by (simp add: read_nat_def)

lemma read_nat_dec [simp]: "read_nat (dec n) = n"
proof (induction n rule: dec.induct)
  case (1 n)
  show ?case
  proof (cases "n < 10")
    case True
    then show ?thesis by (subst dec.simps) (simp add: read_nat_def)
  next
    case False
    with 1 show ?thesis by (subst dec.simps) simp
  qed
qed

lemma read_nat_replicate_zero: "read_nat (replicate k (CHR ''0'')) = 0"
proof (induction k)
  case 0
  then show ?case by (simp add: read_nat_def)
next
  case (Suc k)
  have "replicate (Suc k) (CHR ''0'') = replicate k (CHR ''0'') @ [CHR ''0'']"
    by (simp add: replicate_append_same)
  then have "read_nat (replicate (Suc k) (CHR ''0'')) =
      10 * read_nat (replicate k (CHR ''0'')) + digit_value (CHR ''0'')"
    by (simp only: read_nat_snoc)
  with Suc show ?case by (simp add: digit_value_def)
qed

lemma read_nat_zeros [simp]: "read_nat (replicate k (CHR ''0'') @ s) = read_nat s"
proof -
  have "read_nat (replicate k (CHR ''0'') @ s) =
      foldl (\<lambda>a c. 10 * a + digit_value c) (read_nat (replicate k (CHR ''0''))) s"
    by (simp add: read_nat_def)
  then show ?thesis by (simp add: read_nat_replicate_zero) (simp add: read_nat_def)
qed

lemma read_nat_zero_pad [simp]: "read_nat (zero_pad w n) = n"
  by (simp add: zero_pad_def)

lemma iso_fields_isoformat:
  assumes "valid_datetime d"
  shows "iso_fields (isoformat d) = Some (calendar_date d)"
proof -
  have y: "year d < 10 ^ 4" and m: "month d < 10 ^ 2" and dd: "day d < 10 ^ 2"
    using assms by (auto simp: valid_datetime_def days_in_month_def split: if_splits)
  obtain y1 y2 y3 y4 where ys: "zero_pad 4 (year d) = [y1, y2, y3, y4]"
    using zero_pad_shape(1)[OF y] by (auto simp: length_Suc_conv numeral_eq_Suc)
  obtain m1 m2 where ms: "zero_pad 2 (month d) = [m1, m2]"
    using zero_pad_shape(1)[OF m] by (auto simp: length_Suc_conv numeral_eq_Suc)
  obtain d1 d2 where ds: "zero_pad 2 (day d) = [d1, d2]"
    using zero_pad_shape(1)[OF dd] by (auto simp: length_Suc_conv numeral_eq_Suc)
  have iso: "iso_date (isoformat d)" using assms by (rule iso_date_isoformat)
  have e: "isoformat d = [y1, y2, y3, y4, CHR ''-'', m1, m2, CHR ''-'', d1, d2]"
    by (simp add: isoformat_def ys ms ds)
  have "read_nat [y1, y2, y3, y4] = year d" "read_nat [m1, m2] = month d"
    "read_nat [d1, d2] = day d"
    using read_nat_zero_pad[of 4 "year d"] read_nat_zero_pad[of 2 "month d"]
      read_nat_zero_pad[of 2 "day d"] unfolding ys ms ds by simp_all
  with iso show ?thesis unfolding e by (simp add: calendar_date_def)
qed

lemma iso_fields_iso_date: "iso_fields s = Some t \<Longrightarrow> iso_date s"
  by (induction s rule: iso_fields.induct) (auto split: if_splits)

lemma level_simps [simp]:
  "region_level (add_country (l2_copy r))" "\<not> province_level (add_country (l2_copy r))"
  "province_level (add_country (l3_row r))" "\<not> region_level (add_country (l3_row r))"
  by (simp_all add: region_level_def province_level_def add_country_def l2_copy_def l3_row_def
      lvl_row.extend_def agg_row.extend_def)

lemma keep_l3 [simp]:
  "keep_row (l3_row r) \<longleftrightarrow>
     match_string_province r \<noteq> Null \<and> match_string_province r \<noteq> Str ''Repatriate''"
  by (simp add: keep_row_def l3_row_def isna_def agg_row.extend_def)

lemma keep_l2 [simp]:
  "keep_row (l2_copy r) \<longleftrightarrow> region_key r \<noteq> Null \<and> region_key r \<noteq> Str ''Repatriate''"
  by (simp add: keep_row_def l2_copy_def isna_def agg_row.extend_def)

lemma region_key_str: "is_str (match_string_region r) \<Longrightarrow> region_key r \<noteq> Null"
  by (cases "match_string_region r") (simp_all add: region_key_def)

lemma out_fields [simp]:
  "match_string (add_country (l2_copy r)) = region_key r"
  "match_string (add_country (l3_row r)) = match_string_province r"
  "match_string_province (add_country (l2_copy r)) = match_string_province r"
  "match_string_region (add_country (l2_copy r)) = Null"
  "match_string_province (add_country (l3_row r)) = Null"
  "match_string_region (add_country (l3_row r)) = match_string_region r"
  "payload (add_country (l2_copy r)) = payload r"
  "payload (add_country (l3_row r)) = payload r"
  "date (add_country (l2_copy r)) = date r"
  "date (add_country (l3_row r)) = date r"
  by (simp_all add: add_country_def l2_copy_def l3_row_def payload_def
      lvl_row.extend_def agg_row.extend_def)

lemma filter_levels:
  "filter region_level (map add_country (filter keep_row (map l2_copy data)) @
                         map add_country (filter keep_row (map l3_row data))) =
     map add_country (filter keep_row (map l2_copy data))"
  "filter province_level (map add_country (filter keep_row (map l2_copy data)) @
                         map add_country (filter keep_row (map l3_row data))) =
     map add_country (filter keep_row (map l3_row data))"
  by (auto simp: filter_map comp_def filter_empty_conv intro!: filter_True)


lemma hospitalized_impute_dates [simp]: "hospitalized (impute_dates r) = hospitalized r"
  by (simp add: impute_dates_def impute_recovered_def impute_deceased_def)

lemma str_accessor_flags:
  "str_accessor (map hospitalized cases) =
     (if cases = [] \<or> (\<exists>r\<in>set cases. is_str (hospitalized r))
      then Inr (map hospitalized cases) else Inl AttributeError)"
  by (auto simp: str_accessor_def list_ex_iff)

lemma parse_dataframes_eq:
  "parse_dataframes convert age_group safe_datetime_parse cases =
     (if cases = [] \<or> (\<exists>r\<in>set cases. is_str (hospitalized r))
      then (case apply_rows lower_sex (map (prepare_case age_group) cases) of
              Inl e \<Rightarrow> Inl e
            | Inr cs \<Rightarrow>
                expand_resolutions
                  (map fillna0 (normalize_dates safe_datetime_parse (convert cs))))
      else Inl AttributeError)"
proof -
  have a: "map hospitalized (map impute_dates cases) = map hospitalized cases"
    by simp
  have b: "map (stratify_age age_group) (map infer_hospitalized (map impute_dates cases)) =
      map (prepare_case age_group) cases"
    by (simp add: prepare_case_def)
  show ?thesis
  proof (cases "cases = [] \<or> (\<exists>r\<in>set cases. is_str (hospitalized r))")
    case True
    then have "hospitalized_dates (map impute_dates cases) =
        Inr (map infer_hospitalized (map impute_dates cases))"
      unfolding hospitalized_dates_def a str_accessor_flags by simp
    then have "parse_dataframes convert age_group safe_datetime_parse cases =
        (case apply_rows lower_sex (map (prepare_case age_group) cases) of
              Inl e \<Rightarrow> Inl e
            | Inr cs \<Rightarrow>
                expand_resolutions
                  (map fillna0 (normalize_dates safe_datetime_parse (convert cs))))"
      unfolding parse_dataframes_def b[symmetric] by simp
    with True show ?thesis by simp
  next
    case False
    then have "hospitalized_dates (map impute_dates cases) = Inl AttributeError"
      unfolding hospitalized_dates_def a str_accessor_flags by simp
    with False show ?thesis by (simp add: parse_dataframes_def)
  qed
qed

lemma parse_dataframes_Inr_D:
  assumes "parse_dataframes convert age_group safe_datetime_parse cases = Inr out"
  shows "\<exists>cs. apply_rows lower_sex (map (prepare_case age_group) cases) = Inr cs \<and>
     expand_resolutions
       (map fillna0 (normalize_dates safe_datetime_parse (convert cs))) = Inr out"
  using assms by (auto simp: parse_dataframes_eq split: sum.splits if_splits)

section \<open>Resolution expansion\<close>

text \<open>
  C3 (as amended). Every row of the table that \<open>parse_dataframes\<close> returns has a
  \<open>match_string\<close> that is not null and is not the placeholder "Repatriate",
  whatever the imported helpers are: lines 95-96 drop the rows of either copy
  whose \<open>match_string\<close> is null or the placeholder.
\<close>

theorem key_filtering:
  assumes "parse_dataframes convert age_group safe_datetime_parse cases = Inr out"
  shows "\<forall>r\<in>set out. match_string r \<noteq> Null \<and> match_string r \<noteq> Str ''Repatriate''"
proof -
  from parse_dataframes_Inr_D[OF assms] obtain data where
    "expand_resolutions data = Inr out" by blast
  then have "out = map add_country (filter keep_row (map l2_copy data)) @
                   map add_country (filter keep_row (map l3_row data))"
    by (simp add: expand_Inr_iff)
  then show ?thesis by auto
qed

theorem key_filtering_witness:
  "\<exists>out. parse_dataframes convert_cases_to_time_series example_age_group example_parse
            [scenario_case] = Inr out \<and>
         length out = 4 \<and>
         list_all (\<lambda>r. match_string r \<noteq> Null \<and> match_string r \<noteq> Str ''Repatriate'') out"
proof -
  let ?res = "parse_dataframes convert_cases_to_time_series example_age_group example_parse
        [scenario_case]"
  have l: "length (projr ?res) = 4" by code_simp
  have "isl ?res = False" by code_simp
  then have h: "?res = Inr (projr ?res)" by (cases ?res) simp_all
  from key_filtering[OF h] have "list_all
      (\<lambda>r. match_string r \<noteq> Null \<and> match_string r \<noteq> Str ''Repatriate'') (projr ?res)"
    by (simp add: list_all_iff)
  with h l show ?thesis by blast
qed

text \<open>
  The claim as stated also promises a non-empty key. An aggregated row with an
  empty province string and a region string that ends in the separator gives
  two output rows whose \<open>match_string\<close> is the empty string: \<open>dropna\<close> drops
  nulls only.
\<close>

theorem key_filtering_counterexample:
  "expand_resolutions [example_row (Str []) (Str ''NCR: '')] =
     Inr [\<lparr>match_string_province = Str [], match_string_region = Null,
           age = Str ''40-49'', sex = Str ''female'', date = Str ''2020-04-01'',
           new_confirmed = Num 1, new_deceased = Num 0, new_recovered = Num 0,
           new_hospitalized = Num 1,
           match_string = Str [], subregion2_code = Null, country_code = Str ''PH''\<rparr>,
          \<lparr>match_string_province = Null, match_string_region = Str ''NCR: '',
           age = Str ''40-49'', sex = Str ''female'', date = Str ''2020-04-01'',
           new_confirmed = Num 1, new_deceased = Num 0, new_recovered = Num 0,
           new_hospitalized = Num 1,
           match_string = Str [], subregion2_code = Str [], country_code = Str ''PH''\<rparr>]"
  by code_simp

text \<open>
  C10. In the table returned by lines 87-97 every row is a region-level or a
  province-level row. A region-level row has no \<open>match_string_region\<close> (null after
  \<open>concat\<close>) and keeps the \<open>match_string_province\<close> of the aggregated row it
  comes from; a province-level row has no \<open>match_string_province\<close> and keeps the
  \<open>match_string_region\<close> of its aggregated row.
\<close>

theorem extra_key_columns:
  assumes "expand_resolutions data = Inr out"
  shows "(\<forall>r\<in>set out. region_level r \<or> province_level r) \<and>
    (\<forall>r\<in>set out. region_level r \<longrightarrow> match_string_region r = Null) \<and>
    (\<forall>r\<in>set out. province_level r \<longrightarrow> match_string_province r = Null) \<and>
    map match_string_province (filter region_level out) =
      map match_string_province
        (filter (\<lambda>r. region_key r \<noteq> Str ''Repatriate'') data) \<and>
    map match_string_region (filter province_level out) =
      map match_string_region
        (filter (\<lambda>r. match_string_province r \<noteq> Null \<and>
                     match_string_province r \<noteq> Str ''Repatriate'') data)"
proof -
  from assms have str: "\<forall>r\<in>set data. is_str (match_string_region r)"
    and out: "out = map add_country (filter keep_row (map l2_copy data)) @
                   map add_country (filter keep_row (map l3_row data))"
    by (simp_all add: expand_Inr_iff)
  have k2: "filter (\<lambda>r. region_key r \<noteq> Null \<and> region_key r \<noteq> Str ''Repatriate'') data =
            filter (\<lambda>r. region_key r \<noteq> Str ''Repatriate'') data"
    using str by (intro filter_cong) (auto simp: region_key_str)
  have a: "\<forall>r\<in>set out. region_level r \<or> province_level r"
    unfolding out by auto
  have b: "\<forall>r\<in>set out. region_level r \<longrightarrow> match_string_region r = Null"
    unfolding out by auto
  have c: "\<forall>r\<in>set out. province_level r \<longrightarrow> match_string_province r = Null"
    unfolding out by auto
  have d: "map match_string_province (filter region_level out) =
      map match_string_province (filter (\<lambda>r. region_key r \<noteq> Str ''Repatriate'') data)"
    unfolding out filter_levels by (simp add: filter_map comp_def k2)
  have e: "map match_string_region (filter province_level out) =
      map match_string_region
        (filter (\<lambda>r. match_string_province r \<noteq> Null \<and>
                     match_string_province r \<noteq> Str ''Repatriate'') data)"
    unfolding out filter_levels by (simp add: filter_map comp_def)
  from a b c d e show ?thesis by blast
qed

theorem extra_key_columns_witness:
  "\<exists>out. expand_resolutions example_data = Inr out \<and>
     list_all (\<lambda>r. region_level r \<or> province_level r) out \<and>
     map match_string_province (filter region_level out) = [Str ''Manila'', Null] \<and>
     map match_string_region (filter region_level out) = [Null, Null] \<and>
     map match_string_region (filter province_level out) =
       [Str ''NCR: National Capital Region'', Str ''Repatriate''] \<and>
     map match_string_province (filter province_level out) = [Null, Null]"
proof -
  let ?res = "expand_resolutions example_data"
  have "isl ?res = False" by code_simp
  then have h: "?res = Inr (projr ?res)" by (cases ?res) simp_all
  note t = extra_key_columns[OF h]
  have r1: "map match_string_province
      (filter (\<lambda>r. region_key r \<noteq> Str ''Repatriate'') example_data) = [Str ''Manila'', Null]"
    by code_simp
  have r2: "map match_string_region
      (filter (\<lambda>r. match_string_province r \<noteq> Null \<and>
                   match_string_province r \<noteq> Str ''Repatriate'') example_data) =
      [Str ''NCR: National Capital Region'', Str ''Repatriate'']"
    by code_simp
  have r3: "map match_string_region (filter region_level (projr ?res)) = [Null, Null]"
    by code_simp
  have r4: "map match_string_province (filter province_level (projr ?res)) = [Null, Null]"
    by code_simp
  from t have "list_all (\<lambda>r. region_level r \<or> province_level r) (projr ?res)"
    by (simp add: list_all_iff)
  with t r1 r2 r3 r4 h show ?thesis by metis
qed

lemma region_key_after_last:
  "match_string_region r = Str s \<Longrightarrow> \<exists>t. region_key r = Str t \<and> after_last_sep s t"
  by (simp add: region_key_def after_last_sep_split)

text \<open>
  C2 (as amended). For an aggregated table whose region cells are strings, lines
  87-97 return the region-level rows followed by the province-level rows. Each
  aggregated row gives one region-level row, keyed by what follows the last
  \<open>": "\<close> of its region, unless that key is "Repatriate". Each aggregated row
  whose province is a string gives one province-level row, keyed by that
  province as it is, unless the province is "Repatriate". Both copies carry the
  date, age, sex and counts of the row. Nothing is said of the province-level
  rows whose key is not a string.
\<close>

theorem dual_resolution:
  assumes "\<forall>r\<in>set data. is_str (match_string_region r)"
  shows "\<exists>out. expand_resolutions data = Inr out \<and>
    out = filter region_level out @ filter province_level out \<and>
    map (\<lambda>r. (match_string r, payload r)) (filter region_level out) =
      map (\<lambda>r. (region_key r, payload r))
        (filter (\<lambda>r. region_key r \<noteq> Str ''Repatriate'') data) \<and>
    map (\<lambda>r. (match_string r, payload r))
        (filter (\<lambda>r. province_level r \<and> is_str (match_string r)) out) =
      map (\<lambda>r. (match_string_province r, payload r))
        (filter (\<lambda>r. is_str (match_string_province r) \<and>
                     match_string_province r \<noteq> Str ''Repatriate'') data) \<and>
    (\<forall>r\<in>set data. \<forall>s. match_string_region r = Str s \<longrightarrow>
       (\<exists>t. region_key r = Str t \<and> after_last_sep s t))"
proof -
  define out where "out = map add_country (filter keep_row (map l2_copy data)) @
                   map add_country (filter keep_row (map l3_row data))"
  have res: "expand_resolutions data = Inr out"
    using assms by (simp add: expand_Inr_iff out_def)
  have k2: "filter (\<lambda>r. region_key r \<noteq> Null \<and> region_key r \<noteq> Str ''Repatriate'') data =
            filter (\<lambda>r. region_key r \<noteq> Str ''Repatriate'') data"
    using assms by (intro filter_cong) (auto simp: region_key_str)
  have k3: "filter (\<lambda>r. match_string_province r \<noteq> Null \<and>
                        match_string_province r \<noteq> Str ''Repatriate'' \<and>
                        is_str (match_string_province r)) data =
            filter (\<lambda>r. is_str (match_string_province r) \<and>
                        match_string_province r \<noteq> Str ''Repatriate'') data"
    by (intro filter_cong) auto
  have a: "out = filter region_level out @ filter province_level out"
    unfolding out_def filter_levels ..
  have b: "map (\<lambda>r. (match_string r, payload r)) (filter region_level out) =
      map (\<lambda>r. (region_key r, payload r))
        (filter (\<lambda>r. region_key r \<noteq> Str ''Repatriate'') data)"
    unfolding out_def filter_levels by (simp add: filter_map comp_def k2)
  have "filter (\<lambda>r. province_level r \<and> is_str (match_string r)) out =
      filter (\<lambda>r. is_str (match_string r)) (filter province_level out)"
    by (simp add: conj_commute)
  then have c: "map (\<lambda>r. (match_string r, payload r))
        (filter (\<lambda>r. province_level r \<and> is_str (match_string r)) out) =
      map (\<lambda>r. (match_string_province r, payload r))
        (filter (\<lambda>r. is_str (match_string_province r) \<and>
                     match_string_province r \<noteq> Str ''Repatriate'') data)"
    unfolding out_def filter_levels by (simp add: filter_map comp_def k3)
  have d: "\<forall>r\<in>set data. \<forall>s. match_string_region r = Str s \<longrightarrow>
       (\<exists>t. region_key r = Str t \<and> after_last_sep s t)"
    using region_key_after_last by blast
  from res a b c d show ?thesis by blast
qed

theorem dual_resolution_witness:
  "list_all (\<lambda>r. is_str (match_string_region r)) example_filled \<and>
   (\<exists>out. expand_resolutions example_filled = Inr out \<and>
      map match_string (filter region_level out) =
        [Str ''National Capital Region'', Str ''Central Visayas''] \<and>
      map match_string (filter (\<lambda>r. province_level r \<and> is_str (match_string r)) out) =
        [Str ''Manila'', Str ''Cebu''] \<and>
      out = filter region_level out @ filter province_level out)"
proof -
  have h: "\<forall>r\<in>set example_filled. is_str (match_string_region r)"
    by (simp add: example_filled_def example_data_def example_row_def fillna0_def
        fill0_def isna_def)
  from dual_resolution[OF h] obtain out where
    res: "expand_resolutions example_filled = Inr out"
    and a: "out = filter region_level out @ filter province_level out"
    and b: "map (\<lambda>r. (match_string r, payload r)) (filter region_level out) =
      map (\<lambda>r. (region_key r, payload r))
        (filter (\<lambda>r. region_key r \<noteq> Str ''Repatriate'') example_filled)"
    and c: "map (\<lambda>r. (match_string r, payload r))
        (filter (\<lambda>r. province_level r \<and> is_str (match_string r)) out) =
      map (\<lambda>r. (match_string_province r, payload r))
        (filter (\<lambda>r. is_str (match_string_province r) \<and>
                     match_string_province r \<noteq> Str ''Repatriate'') example_filled)"
    by blast
  have "map match_string (filter region_level out) =
      map fst (map (\<lambda>r. (match_string r, payload r)) (filter region_level out))"
    by (simp add: comp_def)
  also have "\<dots> = [Str ''National Capital Region'', Str ''Central Visayas'']"
    unfolding b by code_simp
  finally have b': "map match_string (filter region_level out) =
      [Str ''National Capital Region'', Str ''Central Visayas'']" .
  have "map match_string (filter (\<lambda>r. province_level r \<and> is_str (match_string r)) out) =
      map fst (map (\<lambda>r. (match_string r, payload r))
        (filter (\<lambda>r. province_level r \<and> is_str (match_string r)) out))"
    by (simp add: comp_def)
  also have "\<dots> = [Str ''Manila'', Str ''Cebu'']"
    unfolding c by code_simp
  finally have c': "map match_string
      (filter (\<lambda>r. province_level r \<and> is_str (match_string r)) out) =
      [Str ''Manila'', Str ''Cebu'']" .
  from res a b' c' h show ?thesis by (auto simp: list_all_iff)
qed

text \<open>
  The claim as stated gives every aggregated row one row at each resolution, and
  takes a case with only its region known out of the province-level series. A
  row whose region is "Repatriate" has no region-level row. And the scenario
  case without a province comes back from \<open>parse_dataframes\<close> (the aggregation as
  the specification describes it) with two region-level rows and two
  province-level rows, the latter keyed 0: line 84 has put 0 for the missing
  province, so line 95 finds no null to drop.
\<close>

theorem dual_resolution_counterexample:
  "expand_resolutions [example_row (Str ''Cebu'') (Str ''Repatriate'')] =
     Inr [\<lparr>match_string_province = Null, match_string_region = Str ''Repatriate'',
           age = Str ''40-49'', sex = Str ''female'', date = Str ''2020-04-01'',
           new_confirmed = Num 1, new_deceased = Num 0, new_recovered = Num 0,
           new_hospitalized = Num 1,
           match_string = Str ''Cebu'', subregion2_code = Str [], country_code = Str ''PH''\<rparr>] \<and>
   isl (parse_dataframes convert_cases_to_time_series example_age_group example_parse
          [scenario_case\<lparr>match_string_province := Null\<rparr>]) = False \<and>
   map (\<lambda>r. (match_string r, subregion2_code r))
     (projr (parse_dataframes convert_cases_to_time_series example_age_group example_parse
          [scenario_case\<lparr>match_string_province := Null\<rparr>])) =
     [(Str ''National Capital Region'', Null), (Str ''National Capital Region'', Null),
      (Num 0, Str []), (Num 0, Str [])]"
  by code_simp

section \<open>Null replacement, date normalization and missing values\<close>

lemma fill0_simps [simp]: "fill0 Null = Num 0" "fill0 (Str s) = Str s" "fill0 (Num n) = Num n"
  by (simp_all add: fill0_def isna_def)

lemma normalize_dates_Nil [simp]: "normalize_dates p [] = []"
  by (simp add: normalize_dates_def)

lemma normalize_dates_Cons:
  "normalize_dates p (r # rs) =
     (case p (date r) of None \<Rightarrow> normalize_dates p rs
      | Some d \<Rightarrow> r\<lparr>date := Str (isoformat d)\<rparr> # normalize_dates p rs)"
  by (simp add: normalize_dates_def split: option.splits)

lemma normalize_dates_others:
  "map (\<lambda>r. r\<lparr>date := Null\<rparr>) (normalize_dates p data) =
   map (\<lambda>r. r\<lparr>date := Null\<rparr>) (filter (\<lambda>r. p (date r) \<noteq> None) data)"
  by (induction data) (auto simp: normalize_dates_Cons split: option.splits)

lemma normalize_dates_date:
  "map date (normalize_dates p data) =
   map (\<lambda>r. Str (isoformat (the (p (date r))))) (filter (\<lambda>r. p (date r) \<noteq> None) data)"
  by (induction data) (auto simp: normalize_dates_Cons split: option.splits)

lemma normalize_dates_iso:
  assumes "\<forall>c d. p c = Some d \<longrightarrow> valid_datetime d"
  shows "r \<in> set (normalize_dates p data) \<Longrightarrow> \<exists>s. date r = Str s \<and> iso_date s"
proof (induction data)
  case Nil
  then show ?case by simp
next
  case (Cons x xs)
  show ?case
  proof (cases "p (date x)")
    case None
    with Cons show ?thesis by (simp add: normalize_dates_Cons)
  next
    case (Some d)
    with assms have "iso_date (isoformat d)" by (simp add: iso_date_isoformat)
    with Some Cons show ?thesis by (auto simp: normalize_dates_Cons)
  qed
qed

text \<open>
  Line 84 row by row: a null becomes zero in every column, and a value that is
  not null stays.
\<close>

lemma fillna0_all_columns:
  "match_string_province (fillna0 r) =
     (if match_string_province r = Null then Num 0 else match_string_province r) \<and>
   match_string_region (fillna0 r) =
     (if match_string_region r = Null then Num 0 else match_string_region r) \<and>
   age (fillna0 r) = (if age r = Null then Num 0 else age r) \<and>
   sex (fillna0 r) = (if sex r = Null then Num 0 else sex r) \<and>
   date (fillna0 r) = (if date r = Null then Num 0 else date r) \<and>
   new_confirmed (fillna0 r) = (if new_confirmed r = Null then Num 0 else new_confirmed r) \<and>
   new_deceased (fillna0 r) = (if new_deceased r = Null then Num 0 else new_deceased r) \<and>
   new_recovered (fillna0 r) = (if new_recovered r = Null then Num 0 else new_recovered r) \<and>
   new_hospitalized (fillna0 r) =
     (if new_hospitalized r = Null then Num 0 else new_hospitalized r)"
  by (simp add: fillna0_def fill0_def isna_def)

text \<open>
  C9. The replacement of line 84 is not confined to the count columns: a null
  province, which is a grouping key, and a null age band become 0 as well. The
  scenario case without a province shows it through the whole function (the
  aggregation as the specification describes it): the missing province is 0
  when line 95 looks for nulls, and the case is returned in two province-level
  rows keyed 0.
\<close>

theorem fillna0_fills_keys:
  "match_string_province (example_row Null (Str ''NCR'')) = Null \<and>
   match_string_province (fillna0 (example_row Null (Str ''NCR''))) = Num 0 \<and>
   age (fillna0 (example_row (Str ''Manila'') (Str ''NCR'')\<lparr>age := Null\<rparr>)) = Num 0 \<and>
   isl (parse_dataframes convert_cases_to_time_series example_age_group example_parse
          [scenario_case\<lparr>match_string_province := Null\<rparr>]) = False \<and>
   map match_string (filter province_level
     (projr (parse_dataframes convert_cases_to_time_series example_age_group example_parse
          [scenario_case\<lparr>match_string_province := Null\<rparr>]))) = [Num 0, Num 0]"
  by code_simp

text \<open>
  C4. A case row whose sex is missing makes line 70 raise \<open>AttributeError\<close>,
  whatever the imported helpers do: the claim that a missing value is never
  fatal does not hold for this column.
\<close>

theorem missing_sex_raises:
  "parse_dataframes convert age_group safe_datetime_parse [scenario_case\<lparr>sex := Null\<rparr>] =
     Inl AttributeError"
  by (simp add: parse_dataframes_eq prepare_case_def stratify_age_def infer_hospitalized_def
      lower_sex_def case_row.extend_def impute_dates_def impute_recovered_def
      impute_deceased_def scenario_case_def)

text \<open>
  C7. On a table in which no admission flag is a string (every flag missing, or
  missing and numeric), line 61 raises \<open>AttributeError\<close>: no row is left with a
  null \<open>date_new_hospitalized\<close>, the function fails, whatever the imported
  helpers do.
\<close>

theorem missing_flags_raise:
  "parse_dataframes convert age_group safe_datetime_parse
     [scenario_case\<lparr>hospitalized := Null\<rparr>] = Inl AttributeError \<and>
   parse_dataframes convert age_group safe_datetime_parse
     [scenario_case\<lparr>hospitalized := Null\<rparr>, scenario_case\<lparr>hospitalized := Num 1\<rparr>] =
     Inl AttributeError"
  by (simp add: parse_dataframes_eq scenario_case_def)

lemma normalize_dates_fields:
  assumes "\<forall>c d. p c = Some d \<longrightarrow> valid_datetime d"
  shows "map (\<lambda>r. date_fields (date r)) (normalize_dates p data) =
     map (\<lambda>r. map_option calendar_date (p (date r)))
       (filter (\<lambda>r. p (date r) \<noteq> None) data)"
proof (induction data)
  case Nil
  then show ?case by simp
next
  case (Cons x xs)
  show ?case
  proof (cases "p (date x)")
    case None
    with Cons show ?thesis by (simp add: normalize_dates_Cons)
  next
    case (Some d)
    with assms have "iso_fields (isoformat d) = Some (calendar_date d)"
      by (simp add: iso_fields_isoformat)
    with Some Cons show ?thesis by (simp add: normalize_dates_Cons date_fields_def)
  qed
qed

lemma normalize_dates_parsed:
  assumes "\<forall>c d. p c = Some d \<longrightarrow> valid_datetime d"
  shows "r \<in> set (normalize_dates p data) \<Longrightarrow>
    \<exists>c d. p c = Some d \<and> date_fields (date r) = Some (calendar_date d)"
proof (induction data)
  case Nil
  then show ?case by simp
next
  case (Cons x xs)
  show ?case
  proof (cases "p (date x)")
    case None
    with Cons show ?thesis by (simp add: normalize_dates_Cons)
  next
    case (Some d)
    with assms have "iso_fields (isoformat d) = Some (calendar_date d)"
      by (simp add: iso_fields_isoformat)
    then have f: "date_fields (date (x\<lparr>date := Str (isoformat d)\<rparr>)) =
        Some (calendar_date d)"
      by (simp add: date_fields_def)
    from Cons.prems Some have
      "r = x\<lparr>date := Str (isoformat d)\<rparr> \<or> r \<in> set (normalize_dates p xs)"
      by (simp add: normalize_dates_Cons)
    then show ?thesis
    proof
      assume "r = x\<lparr>date := Str (isoformat d)\<rparr>"
      with f have "date_fields (date r) = Some (calendar_date d)" by simp
      with Some show ?thesis by blast
    next
      assume "r \<in> set (normalize_dates p xs)"
      then show ?thesis by (rule Cons.IH)
    qed
  qed
qed

lemma date_fillna0: "date_fields (date y) = Some t \<Longrightarrow> date (fillna0 y) = date y"
  by (cases "date y") (simp_all add: fillna0_def date_fields_def)

text \<open>
  C8. With a parser that returns Python datetimes, lines 81-83 keep exactly the
  rows whose date parses, with their other columns untouched; a row whose date
  does not parse leaves no row behind. The date of a row that stays is a string
  of the shape \<open>YYYY-MM-DD\<close> whose three numbers are the year, month and day of
  the row's parsed date, with no time of day; and every row of the table that
  \<open>parse_dataframes\<close> returns carries such a string for a date the parser
  returned. The three lines raise nothing: \<open>normalize_dates\<close> is a total function
  into tables.
\<close>

theorem unparseable_dates_dropped:
  assumes "\<forall>c d. safe_datetime_parse c = Some d \<longrightarrow> valid_datetime d"
  shows "map (\<lambda>r. r\<lparr>date := Null\<rparr>) (normalize_dates safe_datetime_parse data) =
      map (\<lambda>r. r\<lparr>date := Null\<rparr>)
        (filter (\<lambda>r. safe_datetime_parse (date r) \<noteq> None) data) \<and>
    map (\<lambda>r. date_fields (date r)) (normalize_dates safe_datetime_parse data) =
      map (\<lambda>r. map_option calendar_date (safe_datetime_parse (date r)))
        (filter (\<lambda>r. safe_datetime_parse (date r) \<noteq> None) data) \<and>
    (\<forall>r\<in>set (normalize_dates safe_datetime_parse data). \<exists>s. date r = Str s \<and> iso_date s) \<and>
    (\<forall>out. parse_dataframes convert age_group safe_datetime_parse cases = Inr out \<longrightarrow>
       (\<forall>r\<in>set out. \<exists>c d s. safe_datetime_parse c = Some d \<and> date r = Str s \<and>
          iso_date s \<and> iso_fields s = Some (calendar_date d)))"
proof -
  have iso: "\<forall>r\<in>set (normalize_dates safe_datetime_parse data). \<exists>s. date r = Str s \<and> iso_date s"
    using normalize_dates_iso[OF assms] by blast
  have "\<forall>r\<in>set out. \<exists>c d s. safe_datetime_parse c = Some d \<and> date r = Str s \<and>
          iso_date s \<and> iso_fields s = Some (calendar_date d)"
    if "parse_dataframes convert age_group safe_datetime_parse cases = Inr out" for out
  proof -
    from parse_dataframes_Inr_D[OF that] obtain cs where
      ex: "expand_resolutions
        (map fillna0 (normalize_dates safe_datetime_parse (convert cs))) = Inr out"
      by blast
    let ?nd = "normalize_dates safe_datetime_parse (convert cs)"
    have d: "\<exists>c d s. safe_datetime_parse c = Some d \<and> date x = Str s \<and>
          iso_date s \<and> iso_fields s = Some (calendar_date d)"
      if "x \<in> set (map fillna0 ?nd)" for x
    proof -
      from that obtain y where y: "y \<in> set ?nd" "x = fillna0 y" by auto
      from normalize_dates_parsed[OF assms y(1)] obtain c d where
        cd: "safe_datetime_parse c = Some d" "date_fields (date y) = Some (calendar_date d)"
        by blast
      from cd(2) obtain s where s: "date y = Str s" "iso_fields s = Some (calendar_date d)"
        by (cases "date y") (simp_all add: date_fields_def)
      from cd(2) y(2) have "date x = date y" by (simp add: date_fillna0)
      with s cd(1) iso_fields_iso_date[OF s(2)] show ?thesis
        by (intro exI[of _ c] exI[of _ d] exI[of _ s]) simp
    qed
    from ex have "out = map add_country (filter keep_row (map l2_copy (map fillna0 ?nd))) @
                   map add_country (filter keep_row (map l3_row (map fillna0 ?nd)))"
      by (simp add: expand_Inr_iff)
    then have "\<forall>r\<in>set out. \<exists>x\<in>set (map fillna0 ?nd). date r = date x"
      by auto
    with d show ?thesis by metis
  qed
  with iso normalize_dates_others normalize_dates_fields[OF assms] show ?thesis by blast
qed

theorem unparseable_dates_dropped_witness:
  "map (\<lambda>r. date_fields (date r)) (normalize_dates example_parse
      (example_data @ [example_row Null Null\<lparr>date := Str ''2020-02-30''\<rparr>,
                       example_row Null Null\<lparr>date := Str ''2020-04-10''\<rparr>])) =
     [Some (2020, 4, 1), Some (2020, 4, 1), Some (2020, 4, 1), Some (2020, 4, 10)] \<and>
   list_all (\<lambda>r. \<exists>s. date r = Str s \<and> iso_date s)
     (normalize_dates example_parse
        (example_data @ [example_row Null Null\<lparr>date := Str ''2020-02-30''\<rparr>,
                         example_row Null Null\<lparr>date := Str ''2020-04-10''\<rparr>]))"
proof -
  have h: "\<forall>c d. example_parse c = Some d \<longrightarrow> valid_datetime d"
    by (auto simp: example_parse_def valid_datetime_def days_in_month_def split: if_splits)
  note t = unparseable_dates_dropped[OF h,
      of "example_data @ [example_row Null Null\<lparr>date := Str ''2020-02-30''\<rparr>,
                          example_row Null Null\<lparr>date := Str ''2020-04-10''\<rparr>]"]
  have "map (\<lambda>r. map_option calendar_date (example_parse (date r)))
        (filter (\<lambda>r. example_parse (date r) \<noteq> None)
           (example_data @ [example_row Null Null\<lparr>date := Str ''2020-02-30''\<rparr>,
                            example_row Null Null\<lparr>date := Str ''2020-04-10''\<rparr>])) =
     [Some (2020, 4, 1), Some (2020, 4, 1), Some (2020, 4, 1), Some (2020, 4, 10)]"
    by code_simp
  with t show ?thesis by (simp add: list_all_iff)
qed

section \<open>Count conservation\<close>




lemma fill0_not_Null [simp]: "fill0 c \<noteq> Null"
  by (cases c) simp_all

lemma fill0_eq_Str [simp]: "fill0 c = Str s \<longleftrightarrow> c = Str s"
  by (cases c) simp_all

lemma event_count_out [simp]:
  "event_count e (add_country (l2_copy x)) = event_count e x"
  "event_count e (add_country (l3_row x)) = event_count e x"
  by (cases e; simp add: add_country_def l2_copy_def l3_row_def lvl_row.extend_def
      agg_row.extend_def)+

lemma event_count_fillna0 [simp]: "event_count e (fillna0 x) = fill0 (event_count e x)"
  by (cases e) (simp_all add: fillna0_def)

lemma event_count_date_update [simp]: "event_count e (x\<lparr>date := d\<rparr>) = event_count e x"
  by (cases e) simp_all

lemma event_count_pivot [simp]:
  "event_count e (pivot_row cs k) = Num (int (count_list (event_keys e cs) k))"
  by (cases e) (simp_all add: pivot_row_def new_count_def split: prod.splits)

lemma pivot_fields [simp]:
  "match_string_province (pivot_row cs k) = fst (snd k)"
  "match_string_region (pivot_row cs k) = fst (snd (snd k))"
  "date (pivot_row cs k) = fst k"
  by (simp_all add: pivot_row_def split: prod.splits)

lemma fillna0_fields [simp]:
  "match_string_province (fillna0 x) = fill0 (match_string_province x)"
  "match_string_region (fillna0 x) = fill0 (match_string_region x)"
  by (simp_all add: fillna0_def)



lemma region_key_update_date [simp]: "region_key (x\<lparr>date := d\<rparr>) = region_key x"
  by (simp add: region_key_def)

lemma region_key_pivot [simp]:
  "region_key (pivot_row cs (group_key e r)) = region_key r"
  by (simp add: region_key_def group_key_def)



lemma prepare_case_keys [simp]:
  "sex (prepare_case ag r) = sex r"
  "match_string_province (prepare_case ag r) = match_string_province r"
  "match_string_region (prepare_case ag r) = match_string_region r"
  by (simp_all add: prepare_case_def stratify_age_def infer_hospitalized_def
      case_row.extend_def impute_dates_def impute_recovered_def impute_deceased_def)


lemma event_date_sex_update [simp]: "event_date e (x\<lparr>sex := s\<rparr>) = event_date e x"
  by (cases e) simp_all

lemma has_required_key_prepared [simp]:
  "has_required_key ((prepare_case ag r)\<lparr>sex := v\<rparr>) = (match_string_region r \<noteq> Null)"
  by (simp add: has_required_key_def isna_def)






end
